theory Spec2Isabelle
  imports Main "HOL-Library.Word" "HOL-Library.Log_Nat"
begin

section \<open>The environment of \<open>perf_utils.h\<close>\<close>

text \<open>
  The header measures an application it does not own: byte counters living in the
  application's memory, the host clock, and the two console streams. The model makes
  these explicit. A \<open>world\<close> holds the application memory (the counters, by address), the
  instant the clock currently shows, the fill character each console stream currently
  has (the application may have changed it with \<open>setfill\<close>; the header never sets it),
  and the list of observable events performed so far:
  reading a counter through the pointer, invoking an accessor, reading the clock, taking
  and releasing the mutex returned by \<open>cout_mutex()\<close>, and one event per \<open><<\<close> that
  inserts text into a stream.
\<close>

type_synonym u64 = "64 word"

text \<open>A finite \<open>double\<close> is modelled by the rational number it denotes.\<close>

type_synonym dbl = rat

type_synonym memory = "nat \<Rightarrow> u64"

type_synonym time_point = int

datatype stream = Cout | Cerr

datatype event =
    Deref nat
  | Invoke
  | Now
  | Acquire
  | Release
  | Put stream string

record world =
  mem :: memory
  now_tp :: time_point
  fill_char :: "stream \<Rightarrow> char"
  events :: "event list"

text \<open>
  What the header takes from the toolchain: the value of \<open>CHEETAH_ENABLE_PERF\<close>, the
  conversion \<open>std::chrono::duration<double, std::milli>(d).count()\<close> of a clock
  difference (the tick period of \<open>high_resolution_clock\<close> is implementation-defined), and
  the text \<open>operator<<\<close> produces for a \<open>double\<close> and for a \<open>uint64_t\<close>.
\<close>

record build =
  enabled :: bool
  ms_of_ticks :: "int \<Rightarrow> dbl"
  show_double :: "dbl \<Rightarrow> string"
  show_u64 :: "u64 \<Rightarrow> string"

datatype error = NullCString

definition log_event :: "event \<Rightarrow> world \<Rightarrow> world" where
  "log_event e w = w\<lparr>events := events w @ [e]\<rparr>"

text \<open>\<open>*counter_\<close>: the value at the address, and the read is recorded.\<close>

definition deref :: "nat \<Rightarrow> world \<Rightarrow> u64 \<times> world" where
  "deref a w = (mem w a, log_event (Deref a) w)"

text \<open>
  \<open>reader_()\<close>: a \<open>std::function<uint64_t()>\<close> is any closure over the application's
  state; it returns a count and may change that state.
\<close>

type_synonym reader = "memory \<Rightarrow> u64 \<times> memory"

definition invoke :: "reader \<Rightarrow> world \<Rightarrow> u64 \<times> world" where
  "invoke r w = (let (v, m) = r (mem w) in (v, log_event Invoke (w\<lparr>mem := m\<rparr>)))"

text \<open>\<open>Clock::now()\<close>.\<close>

definition clock_now :: "world \<Rightarrow> time_point \<times> world" where
  "clock_now w = (now_tp w, log_event Now w)"

text \<open>\<open>stream << text\<close> for a \<open>std::string\<close>, a string literal or a formatted number.\<close>

definition put :: "stream \<Rightarrow> string \<Rightarrow> world \<Rightarrow> world" where
  "put st s w = log_event (Put st s) w"

text \<open>
  \<open>std::left << std::setw(n)\<close> before an insertion: the text is padded on the right
  with the stream's current fill character \<open>c\<close> (a space unless the application has set
  another) up to \<open>n\<close> characters and is never truncated; the width applies to that one
  insertion only.
\<close>

definition ljust :: "char \<Rightarrow> nat \<Rightarrow> string \<Rightarrow> string" where
  "ljust c n s = s @ replicate (n - length s) c"

text \<open>
  \<open>stream << p\<close> for a \<open>const char *p\<close> that is not a literal: inserting a null
  pointer is an error of the program, so it is an error value here.
\<close>

definition put_cstr :: "stream \<Rightarrow> nat \<Rightarrow> string option \<Rightarrow> world \<Rightarrow> error + world" where
  "put_cstr st n p w =
     (case p of None \<Rightarrow> Inl NullCString | Some s \<Rightarrow> Inr (put st (ljust (fill_char w st) n s) w))"

section \<open>Clock helpers and printing\<close>

definition ms_since :: "build \<Rightarrow> time_point \<Rightarrow> world \<Rightarrow> dbl \<times> world" where
  "ms_since b start w =
     (if enabled b then
        (let (t, w1) = clock_now w in (ms_of_ticks b (t - start), w1))
      else (0, w))"

definition print_line :: "build \<Rightarrow> string \<Rightarrow> world \<Rightarrow> world" where
  "print_line b s w =
     (if enabled b then log_event Release (put Cout s (log_event Acquire w)) else w)"

section \<open>Byte deltas\<close>

record IOBytesDelta =
  begin_v :: u64
  end_v :: u64

definition bytes :: "IOBytesDelta \<Rightarrow> u64" where
  "bytes d = end_v d - begin_v d"

subsection \<open>The arithmetic of \<open>double\<close> used by \<open>mib()\<close>\<close>

text \<open>
  IEEE 754 binary64 with the default rounding: the result of a conversion or a division
  is the exact result rounded to the nearest number with a 53-bit significand, a tie
  going to the even significand. \<open>ilog2 q\<close> is the binary exponent of a positive \<open>q\<close>
  (\<open>2 powi e \<le> q < 2 powi (e + 1)\<close>). The exponent is not bounded here; the values
  \<open>mib()\<close> works with stay far inside the range of normal binary64 numbers
  (lemma \<open>mib_range\<close>), where this is what the hardware computes.
\<close>

definition ilog2 :: "rat \<Rightarrow> int" where
  "ilog2 q =
     (let (a, b) = quotient_of q; k = bitlen a - bitlen b
      in if 2 powi k \<le> q then k else k - 1)"

definition round_even :: "rat \<Rightarrow> int" where
  "round_even x =
     (let f = \<lfloor>x\<rfloor>; r = x - of_int f
      in if r < 1 / 2 then f else if 1 / 2 < r then f + 1
         else if even f then f else f + 1)"

definition round_double :: "rat \<Rightarrow> dbl" where
  "round_double q =
     (if q = 0 then 0
      else (let e = ilog2 \<bar>q\<bar> - 52
            in sgn q * of_int (round_even (\<bar>q\<bar> / 2 powi e)) * 2 powi e))"

text \<open>\<open>double(n)\<close> for a \<open>uint64_t\<close>, and \<open>x / y\<close> on doubles (\<open>y\<close> not zero).\<close>

definition double_of_u64 :: "u64 \<Rightarrow> dbl" where
  "double_of_u64 n = round_double (of_nat (unat n))"

definition fdiv :: "dbl \<Rightarrow> dbl \<Rightarrow> dbl" where
  "fdiv x y = round_double (x / y)"

definition mib :: "IOBytesDelta \<Rightarrow> dbl" where
  "mib d = fdiv (fdiv (double_of_u64 (bytes d)) 1024) 1024"

section \<open>Single-counter scope\<close>

record IOScope =
  io_counter :: "nat option"
  io_label :: string
  io_begin :: u64
  io_finished :: bool
  io_last :: IOBytesDelta

definition IOScope_default :: IOScope where
  "IOScope_default =
     \<lparr>io_counter = None, io_label = [], io_begin = 0, io_finished = False,
      io_last = \<lparr>begin_v = 0, end_v = 0\<rparr>\<rparr>"

definition IOScope_ctor :: "build \<Rightarrow> nat option \<Rightarrow> string \<Rightarrow> world \<Rightarrow> IOScope \<times> world" where
  "IOScope_ctor b counter label w =
     (let s = IOScope_default\<lparr>io_counter := counter, io_label := label\<rparr> in
      if enabled b then
        (case counter of
           Some a \<Rightarrow> (let (v, w1) = deref a w in (s\<lparr>io_begin := v\<rparr>, w1))
         | None \<Rightarrow> (s, w))
      else (s, w))"

definition IOScope_finish :: "build \<Rightarrow> IOScope \<Rightarrow> world \<Rightarrow> IOBytesDelta \<times> IOScope \<times> world" where
  "IOScope_finish b s w =
     (if enabled b then
        (if io_finished s then (io_last s, s, w)
         else
           (let (e, w1) = (case io_counter s of Some a \<Rightarrow> deref a w | None \<Rightarrow> (io_begin s, w));
                d = \<lparr>begin_v = io_begin s, end_v = e\<rparr>
            in (d, s\<lparr>io_last := d, io_finished := True\<rparr>, w1)))
      else (\<lparr>begin_v = 0, end_v = 0\<rparr>, s\<lparr>io_finished := True\<rparr>, w))"

text \<open>
  The report of both destructors: the lock is taken after the delta has been read, and
  the text goes to \<open>std::cerr\<close>, one insertion at a time.
\<close>

definition io_report :: "build \<Rightarrow> string \<Rightarrow> IOBytesDelta \<Rightarrow> world \<Rightarrow> world" where
  "io_report b label d w =
     (let w1 = log_event Acquire w;
          w2 = put Cerr ''[io] '' w1;
          w3 = put Cerr label w2;
          w4 = put Cerr '': '' w3;
          w5 = put Cerr (show_u64 b (bytes d)) w4;
          w6 = put Cerr '' B ('' w5;
          w7 = put Cerr (show_double b (mib d)) w6;
          w8 = put Cerr '' MiB)\<newline>'' w7
      in log_event Release w8)"

definition IOScope_dtor :: "build \<Rightarrow> IOScope \<Rightarrow> world \<Rightarrow> world" where
  "IOScope_dtor b s w =
     (if enabled b then
        (if \<not> io_finished s \<and> io_counter s \<noteq> None \<and> io_label s \<noteq> [] then
           (case io_counter s of
              Some a \<Rightarrow>
                (let (e, w1) = deref a w;
                     d = \<lparr>begin_v = io_begin s, end_v = e\<rparr>
                 in io_report b (io_label s) d w1)
            | None \<Rightarrow> w)
         else w)
      else w)"

section \<open>Accessor-based scope\<close>

record MultiIOScope =
  mio_reader :: "reader option"
  mio_label :: string
  mio_begin :: u64
  mio_finished :: bool
  mio_last :: IOBytesDelta

definition MultiIOScope_default :: MultiIOScope where
  "MultiIOScope_default =
     \<lparr>mio_reader = None, mio_label = [], mio_begin = 0, mio_finished = False,
      mio_last = \<lparr>begin_v = 0, end_v = 0\<rparr>\<rparr>"

definition MultiIOScope_ctor ::
  "build \<Rightarrow> reader option \<Rightarrow> string \<Rightarrow> world \<Rightarrow> MultiIOScope \<times> world" where
  "MultiIOScope_ctor b rd label w =
     (let s = MultiIOScope_default\<lparr>mio_reader := rd, mio_label := label\<rparr> in
      if enabled b then
        (case rd of
           Some r \<Rightarrow> (let (v, w1) = invoke r w in (s\<lparr>mio_begin := v\<rparr>, w1))
         | None \<Rightarrow> (s, w))
      else (s, w))"

definition MultiIOScope_finish ::
  "build \<Rightarrow> MultiIOScope \<Rightarrow> world \<Rightarrow> IOBytesDelta \<times> MultiIOScope \<times> world" where
  "MultiIOScope_finish b s w =
     (if enabled b then
        (if mio_finished s then (mio_last s, s, w)
         else
           (let (e, w1) = (case mio_reader s of Some r \<Rightarrow> invoke r w | None \<Rightarrow> (mio_begin s, w));
                d = \<lparr>begin_v = mio_begin s, end_v = e\<rparr>
            in (d, s\<lparr>mio_last := d, mio_finished := True\<rparr>, w1)))
      else (\<lparr>begin_v = 0, end_v = 0\<rparr>, s\<lparr>mio_finished := True\<rparr>, w))"

definition MultiIOScope_dtor :: "build \<Rightarrow> MultiIOScope \<Rightarrow> world \<Rightarrow> world" where
  "MultiIOScope_dtor b s w =
     (if enabled b then
        (if \<not> mio_finished s \<and> mio_reader s \<noteq> None \<and> mio_label s \<noteq> [] then
           (case mio_reader s of
              Some r \<Rightarrow>
                (let (e, w1) = invoke r w;
                     d = \<lparr>begin_v = mio_begin s, end_v = e\<rparr>
                 in io_report b (mio_label s) d w1)
            | None \<Rightarrow> w)
         else w)
      else w)"

section \<open>Scoped timer\<close>

text \<open>
  \<open>label\<close> is a \<open>const char *\<close>: \<open>None\<close> is the null pointer. A default-constructed
  \<open>time_point\<close> is the clock's epoch, instant 0.
\<close>

record ScopedTimer =
  st_label :: "string option"
  st_t0 :: time_point

definition ScopedTimer_ctor :: "build \<Rightarrow> string option \<Rightarrow> world \<Rightarrow> ScopedTimer \<times> world" where
  "ScopedTimer_ctor b lbl w =
     (if enabled b then
        (let (t, w1) = clock_now w in (\<lparr>st_label = lbl, st_t0 = t\<rparr>, w1))
      else (\<lparr>st_label = lbl, st_t0 = 0\<rparr>, w))"

text \<open>
  The operands of the \<open><<\<close> chain are evaluated left to right, so the clock is read by
  \<open>ms_since\<close> after the label has been inserted, with the lock held.
\<close>

definition ScopedTimer_dtor :: "build \<Rightarrow> ScopedTimer \<Rightarrow> world \<Rightarrow> error + world" where
  "ScopedTimer_dtor b s w =
     (if enabled b then
        (let w1 = log_event Acquire w;
             w2 = put Cout ''  [time] '' w1
         in case put_cstr Cout 28 (if st_label s \<noteq> None then st_label s else Some []) w2 of
              Inl e \<Rightarrow> Inl e
            | Inr w3 \<Rightarrow>
                (let (ms, w4) = ms_since b (st_t0 s) w3;
                     w5 = put Cout (show_double b ms) w4;
                     w6 = put Cout '' ms\<newline>'' w5
                 in Inr (log_event Release w6)))
      else Inr w)"

section \<open>Stage timer\<close>

record StageTimer =
  sg_prefix :: string
  sg_name :: "string option"
  sg_t0 :: time_point

definition StageTimer_ctor ::
  "build \<Rightarrow> string option \<Rightarrow> string \<Rightarrow> world \<Rightarrow> error + StageTimer \<times> world" where
  "StageTimer_ctor b n pref w =
     (if enabled b then
        (let (t, w1) = clock_now w;
             w2 = log_event Acquire w1;
             w3 = put Cout ''\<newline>'' w2;
             w4 = put Cout pref w3;
             w5 = put Cout (if pref = [] then [] else '' '') w4
         in case put_cstr Cout 0 (if n \<noteq> None then n else Some []) w5 of
              Inl e \<Rightarrow> Inl e
            | Inr w6 \<Rightarrow>
                (let w7 = put Cout ''\<newline>'' w6
                 in Inr (\<lparr>sg_prefix = pref, sg_name = n, sg_t0 = t\<rparr>, log_event Release w7)))
      else Inr (\<lparr>sg_prefix = pref, sg_name = n, sg_t0 = 0\<rparr>, w))"

definition StageTimer_done :: "build \<Rightarrow> StageTimer \<Rightarrow> world \<Rightarrow> world" where
  "StageTimer_done b s w =
     (if enabled b then
        (let w1 = log_event Acquire w;
             w2 = put Cout ''  [time] '' w1;
             w3 = put Cout (ljust (fill_char w2 Cout) 28 ''TOTAL'') w2;
             (ms, w4) = ms_since b (sg_t0 s) w3;
             w5 = put Cout (show_double b ms) w4;
             w6 = put Cout '' ms\<newline>'' w5
         in log_event Release w6)
      else w)"

text \<open>\<open>StageTimer\<close> declares no destructor: destroying it only frees its members.\<close>

definition StageTimer_dtor :: "StageTimer \<Rightarrow> world \<Rightarrow> world" where
  "StageTimer_dtor s w = w"

section \<open>Lifetimes\<close>

text \<open>
  A scope as the calling code uses it: it is constructed, the application runs and
  changes its memory (\<open>app\<close>) before each call of \<open>finish()\<close>, runs once more
  (\<open>fin\<close>), and the enclosing block ends. The deltas returned by the calls are collected.
\<close>

fun IOScope_finishes ::
  "build \<Rightarrow> IOScope \<Rightarrow> world \<Rightarrow> (memory \<Rightarrow> memory) list \<Rightarrow> IOBytesDelta list \<times> IOScope \<times> world" where
  "IOScope_finishes b s w [] = ([], s, w)"
| "IOScope_finishes b s w (app # apps) =
     (let (d, s1, w1) = IOScope_finish b s (w\<lparr>mem := app (mem w)\<rparr>);
          (ds, s2, w2) = IOScope_finishes b s1 w1 apps
      in (d # ds, s2, w2))"

definition IOScope_life ::
  "build \<Rightarrow> nat option \<Rightarrow> string \<Rightarrow> (memory \<Rightarrow> memory) list \<Rightarrow> (memory \<Rightarrow> memory) \<Rightarrow> world
     \<Rightarrow> IOBytesDelta list \<times> world" where
  "IOScope_life b counter label apps fin w =
     (let (s, w1) = IOScope_ctor b counter label w;
          (ds, s2, w2) = IOScope_finishes b s w1 apps
      in (ds, IOScope_dtor b s2 (w2\<lparr>mem := fin (mem w2)\<rparr>)))"

fun MultiIOScope_finishes ::
  "build \<Rightarrow> MultiIOScope \<Rightarrow> world \<Rightarrow> (memory \<Rightarrow> memory) list
     \<Rightarrow> IOBytesDelta list \<times> MultiIOScope \<times> world" where
  "MultiIOScope_finishes b s w [] = ([], s, w)"
| "MultiIOScope_finishes b s w (app # apps) =
     (let (d, s1, w1) = MultiIOScope_finish b s (w\<lparr>mem := app (mem w)\<rparr>);
          (ds, s2, w2) = MultiIOScope_finishes b s1 w1 apps
      in (d # ds, s2, w2))"

definition MultiIOScope_life ::
  "build \<Rightarrow> reader option \<Rightarrow> string \<Rightarrow> (memory \<Rightarrow> memory) list \<Rightarrow> (memory \<Rightarrow> memory) \<Rightarrow> world
     \<Rightarrow> IOBytesDelta list \<times> world" where
  "MultiIOScope_life b rd label apps fin w =
     (let (s, w1) = MultiIOScope_ctor b rd label w;
          (ds, s2, w2) = MultiIOScope_finishes b s w1 apps
      in (ds, MultiIOScope_dtor b s2 (w2\<lparr>mem := fin (mem w2)\<rparr>)))"

text \<open>A scoped timer lives from its construction to the instant \<open>t_end\<close> its block ends.\<close>

definition ScopedTimer_life :: "build \<Rightarrow> string option \<Rightarrow> time_point \<Rightarrow> world \<Rightarrow> error + world" where
  "ScopedTimer_life b lbl t_end w =
     (let (s, w1) = ScopedTimer_ctor b lbl w in ScopedTimer_dtor b s (w1\<lparr>now_tp := t_end\<rparr>))"

text \<open>A stage timer is constructed, \<open>done()\<close> is called at the instants \<open>ts\<close>, and it is destroyed.\<close>

fun StageTimer_dones :: "build \<Rightarrow> StageTimer \<Rightarrow> world \<Rightarrow> time_point list \<Rightarrow> world" where
  "StageTimer_dones b s w [] = w"
| "StageTimer_dones b s w (t # ts) = StageTimer_dones b s (StageTimer_done b s (w\<lparr>now_tp := t\<rparr>)) ts"

definition StageTimer_life ::
  "build \<Rightarrow> string option \<Rightarrow> string \<Rightarrow> time_point list \<Rightarrow> world \<Rightarrow> error + world" where
  "StageTimer_life b n pref ts w =
     (case StageTimer_ctor b n pref w of
        Inl e \<Rightarrow> Inl e
      | Inr (s, w1) \<Rightarrow> Inr (StageTimer_dtor s (StageTimer_dones b s w1 ts)))"

section \<open>Observing a run\<close>

text \<open>The events a run added to a world.\<close>

definition emitted :: "world \<Rightarrow> world \<Rightarrow> event list" where
  "emitted w w' = drop (length (events w)) (events w')"

fun is_read :: "event \<Rightarrow> bool" where
  "is_read (Deref a) = True"
| "is_read Invoke = True"
| "is_read e = False"

definition reads :: "event list \<Rightarrow> nat" where
  "reads es = length (filter is_read es)"

definition clock_reads :: "event list \<Rightarrow> nat" where
  "clock_reads es = length (filter (\<lambda>e. e = Now) es)"

text \<open>The text a stream received, and the streams written to, in order.\<close>

fun console :: "stream \<Rightarrow> event list \<Rightarrow> string" where
  "console st [] = []"
| "console st (Put st' s # es) = (if st' = st then s @ console st es else console st es)"
| "console st (e # es) = console st es"

fun puts :: "event list \<Rightarrow> stream list" where
  "puts [] = []"
| "puts (Put st s # es) = st # puts es"
| "puts (e # es) = puts es"


section \<open>The documented line formats\<close>



section \<open>Example inputs\<close>

text \<open>
  A build with instrumentation on, a clock ticking in nanoseconds and a printer that
  knows the numbers of the examples (1.5 and 3 milliseconds, 1048576 bytes); the same
  build with instrumentation compiled out; a world in which every counter holds 1000,
  the streams have their default fill character and nothing has happened yet; and the accessor of the specification's scenario, the sum of
  the counters at addresses 0 and 1.
\<close>

definition build_on :: build where
  "build_on =
     \<lparr>enabled = True, ms_of_ticks = (\<lambda>t. of_int t / 1000000),
      show_double = (\<lambda>x. if x = 3 then ''3'' else ''1.5''), show_u64 = (\<lambda>n. ''1048576'')\<rparr>"

definition build_off :: build where
  "build_off = build_on\<lparr>enabled := False\<rparr>"

definition world0 :: world where
  "world0 = \<lparr>mem = (\<lambda>a. 1000), now_tp = 0, fill_char = (\<lambda>st. CHR '' ''), events = []\<rparr>"

definition sum01 :: reader where
  "sum01 m = (m 0 + m 1, m)"

section \<open>The events of the timer lines\<close>

text \<open>The events of one timer line: \<open>field\<close> is the padded label, \<open>ms\<close> the printed time.\<close>

definition time_line :: "string \<Rightarrow> string \<Rightarrow> event list" where
  "time_line field ms =
     [Acquire, Put Cout ''  [time] '', Put Cout field, Now, Put Cout ms, Put Cout '' ms\<newline>'',
      Release]"

text \<open>The events of the Stage Timer's constructor: the clock, then the header.\<close>

definition stage_header :: "string \<Rightarrow> string option \<Rightarrow> event list" where
  "stage_header pref n =
     [Now, Acquire, Put Cout ''\<newline>'', Put Cout pref, Put Cout (if pref = [] then [] else '' ''),
      Put Cout (case n of None \<Rightarrow> [] | Some l \<Rightarrow> l), Put Cout ''\<newline>'', Release]"

section \<open>Settled scopes\<close>

text \<open>
  After any call of \<open>finish()\<close> a scope is settled on the delta \<open>d\<close> that call returned:
  later calls return \<open>d\<close> and change neither the scope nor the world.
\<close>

definition io_settled :: "build \<Rightarrow> IOScope \<Rightarrow> IOBytesDelta \<Rightarrow> bool" where
  "io_settled b s d \<longleftrightarrow>
     io_finished s \<and> (if enabled b then io_last s = d else d = \<lparr>begin_v = 0, end_v = 0\<rparr>)"

definition mio_settled :: "build \<Rightarrow> MultiIOScope \<Rightarrow> IOBytesDelta \<Rightarrow> bool" where
  "mio_settled b s d \<longleftrightarrow>
     mio_finished s \<and> (if enabled b then mio_last s = d else d = \<lparr>begin_v = 0, end_v = 0\<rparr>)"

section \<open>Basic facts\<close>

lemma events_log_event [simp]: "events (log_event e w) = events w @ [e]"
  by (simp add: log_event_def)

lemma mem_log_event [simp]: "mem (log_event e w) = mem w"
  by (simp add: log_event_def)

lemma now_log_event [simp]: "now_tp (log_event e w) = now_tp w"
  by (simp add: log_event_def)

lemma fill_log_event [simp]: "fill_char (log_event e w) = fill_char w"
  by (simp add: log_event_def)

lemma emitted_append [simp]: "events w' = events w @ es \<Longrightarrow> emitted w w' = es"
  by (simp add: emitted_def)

lemma emitted_self [simp]: "emitted w w = []"
  by (simp add: emitted_def)

subsection \<open>Rounding to binary64\<close>

lemma powi_bitlen_bounds:
  assumes "0 < a"
  shows "(2::rat) powi (bitlen a - 1) \<le> of_int a" and "of_int a < (2::rat) powi bitlen a"
proof -
  have ge1: "1 \<le> bitlen a"
    using assms by (auto simp: bitlen_alt_def)
  have "2 ^ nat (bitlen a - 1) \<le> a" and "a < 2 ^ nat (bitlen a)"
    using bitlen_bounds [OF assms] by auto
  then have "(of_int (2 ^ nat (bitlen a - 1)) :: rat) \<le> of_int a"
    and "(of_int a :: rat) < of_int (2 ^ nat (bitlen a))"
    by (simp_all only: of_int_le_iff of_int_less_iff)
  then show "(2::rat) powi (bitlen a - 1) \<le> of_int a" and "of_int a < (2::rat) powi bitlen a"
    using ge1 by (simp_all add: power_int_def)
qed

lemma ilog2_bounds:
  assumes "0 < q"
  shows "2 powi ilog2 q \<le> q \<and> q < 2 powi (ilog2 q + 1)"
proof -
  obtain a b where ab: "quotient_of q = (a, b)"
    by (cases "quotient_of q")
  have b: "0 < b"
    using quotient_of_denom_pos [OF ab] .
  have q: "q = of_int a / of_int b"
    using quotient_of_div [OF ab] .
  have a: "0 < a"
    using assms b q by (simp add: zero_less_divide_iff)
  define k where "k = bitlen a - bitlen b"
  have "2 powi (k + 1) * of_int b \<ge> (2::rat) powi (k + 1) * 2 powi (bitlen b - 1)"
    using powi_bitlen_bounds(1) [OF b] by (intro mult_left_mono) simp_all
  also have "(2::rat) powi (k + 1) * 2 powi (bitlen b - 1) = 2 powi bitlen a"
    by (simp add: k_def flip: power_int_add)
  finally have "of_int a < 2 powi (k + 1) * (of_int b :: rat)"
    using powi_bitlen_bounds(2) [OF a] by simp
  then have up: "q < 2 powi (k + 1)"
    using b by (simp add: q pos_divide_less_eq)
  have "2 powi (k - 1) * of_int b \<le> (2::rat) powi (k - 1) * 2 powi bitlen b"
    using powi_bitlen_bounds(2) [OF b] by (intro mult_left_mono) simp_all
  also have "(2::rat) powi (k - 1) * 2 powi bitlen b = 2 powi (bitlen a - 1)"
    by (simp add: k_def flip: power_int_add)
  finally have "2 powi (k - 1) * (of_int b :: rat) \<le> of_int a"
    using powi_bitlen_bounds(1) [OF a] by simp
  then have lo: "2 powi (k - 1) \<le> q"
    using b by (simp add: q pos_le_divide_eq)
  show ?thesis
    using up lo by (auto simp: ilog2_def ab k_def Let_def)
qed

lemma ilog2_unique:
  assumes "0 < q" and "2 powi e \<le> q" and "q < 2 powi (e + 1)"
  shows "ilog2 q = e"
proof -
  have "(2::rat) powi ilog2 q < 2 powi (e + 1)"
    using ilog2_bounds [OF assms(1)] assms(3) by simp
  then have 1: "ilog2 q < e + 1"
    by (metis power_int_increasing not_less one_le_numeral)
  have "(2::rat) powi e < 2 powi (ilog2 q + 1)"
    using ilog2_bounds [OF assms(1)] assms(2) by simp
  then have 2: "e < ilog2 q + 1"
    by (metis power_int_increasing not_less one_le_numeral)
  from 1 2 show ?thesis by simp
qed

lemma ilog2_scale:
  assumes "0 < q"
  shows "ilog2 (q * 2 powi k) = ilog2 q + k"
proof (rule ilog2_unique)
  show "0 < q * 2 powi k"
    using assms by simp
  show "2 powi (ilog2 q + k) \<le> q * 2 powi k"
    using ilog2_bounds [OF assms] by (simp add: power_int_add)
  show "q * 2 powi k < 2 powi (ilog2 q + k + 1)"
    using ilog2_bounds [OF assms] by (simp add: power_int_add)
qed

lemma round_double_pos:
  "0 < q \<Longrightarrow>
   round_double q = of_int (round_even (q / 2 powi (ilog2 q - 52))) * 2 powi (ilog2 q - 52)"
  by (simp add: round_double_def Let_def)

lemma round_double_minus: "round_double (- q) = - round_double q"
  by (simp add: round_double_def Let_def)

lemma round_double_scale_pos:
  assumes "0 < q"
  shows "round_double (q * 2 powi k) = round_double q * 2 powi k"
proof -
  have pos: "0 < q * 2 powi k"
    using assms by simp
  have e: "ilog2 (q * 2 powi k) - 52 = (ilog2 q - 52) + k"
    by (simp add: ilog2_scale [OF assms])
  have m: "q * 2 powi k / 2 powi (ilog2 q - 52 + k) = q / 2 powi (ilog2 q - 52)"
    by (simp add: power_int_add)
  show ?thesis
    unfolding round_double_pos [OF pos] round_double_pos [OF assms] e m
    by (simp add: power_int_add)
qed

lemma round_double_scale: "round_double (q * 2 powi k) = round_double q * 2 powi k"
proof -
  consider "q = 0" | "0 < q" | "q < 0" by linarith
  then show ?thesis
  proof cases
    case 1
    then show ?thesis by (simp add: round_double_def)
  next
    case 2
    then show ?thesis by (rule round_double_scale_pos)
  next
    case 3
    then have "0 < - q" by simp
    from round_double_scale_pos [OF this, of k] show ?thesis
      by (simp add: round_double_minus)
  qed
qed

lemma round_even_of_int: "round_even (of_int m) = m"
  by (simp add: round_even_def)

lemma round_even_bounds: "\<lfloor>x\<rfloor> \<le> round_even x \<and> round_even x \<le> \<lfloor>x\<rfloor> + 1"
  by (simp add: round_even_def Let_def)

text \<open>The significand of a positive number lies between \<open>2^52\<close> and \<open>2^53\<close>.\<close>

lemma significand_bounds:
  assumes "0 < q"
  shows "2 ^ 52 \<le> q / 2 powi (ilog2 q - 52) \<and> q / 2 powi (ilog2 q - 52) < 2 ^ 53"
proof -
  have p: "(2::rat) powi (ilog2 q - 52) * 2 ^ 52 = 2 powi ilog2 q"
    "(2::rat) powi (ilog2 q - 52) * 2 ^ 53 = 2 powi (ilog2 q + 1)"
    by (simp_all add: power_int_diff power_int_add)
  show ?thesis
    using ilog2_bounds [OF assms] p
    by (simp add: pos_le_divide_eq pos_divide_less_eq mult.commute)
qed

lemma round_even_significand:
  assumes "0 < q"
  shows "2 ^ 52 \<le> round_even (q / 2 powi (ilog2 q - 52)) \<and>
         round_even (q / 2 powi (ilog2 q - 52)) \<le> 2 ^ 53"
proof -
  let ?x = "q / 2 powi (ilog2 q - 52)"
  have "(2 ^ 52 :: int) \<le> \<lfloor>?x\<rfloor>"
    using significand_bounds [OF assms] by (simp add: le_floor_iff)
  moreover have "\<lfloor>?x\<rfloor> < (2 ^ 53 :: int)"
    using significand_bounds [OF assms] by (simp add: floor_less_iff)
  ultimately show ?thesis
    using round_even_bounds [of ?x] by linarith
qed

text \<open>A number with a 53-bit significand is a double: rounding leaves it as it is.\<close>

lemma round_double_representable:
  assumes "2 ^ 52 \<le> m" and "m < 2 ^ 53"
  shows "round_double (of_int m * 2 powi j) = of_int m * 2 powi j"
proof -
  have "(of_int (2 ^ 52) :: rat) \<le> of_int m" and "(of_int m :: rat) < of_int (2 ^ 53)"
    using assms by (simp_all only: of_int_le_iff of_int_less_iff)
  then have m: "(2 ^ 52 :: rat) \<le> of_int m" "(of_int m :: rat) < 2 ^ 53"
    by simp_all
  have pos: "(0::rat) < of_int m * 2 powi j"
    using m by (intro mult_pos_pos) simp_all
  have "ilog2 (of_int m * 2 powi j) = 52 + j"
  proof (rule ilog2_unique [OF pos])
    show "2 powi (52 + j) \<le> rat_of_int m * 2 powi j"
      using m by (simp add: power_int_add)
    show "rat_of_int m * 2 powi j < 2 powi (52 + j + 1)"
      using m by (simp add: power_int_add)
  qed
  then show ?thesis
    by (simp add: round_double_pos [OF pos] round_even_of_int)
qed

lemma round_double_idem: "round_double (round_double q) = round_double q"
proof -
  have pos: "round_double (round_double q) = round_double q" if "0 < q" for q
  proof -
    define m where "m = round_even (q / 2 powi (ilog2 q - 52))"
    have r: "round_double q = of_int m * 2 powi (ilog2 q - 52)"
      by (simp add: round_double_pos [OF that] m_def)
    have b: "2 ^ 52 \<le> m" "m \<le> 2 ^ 53"
      using round_even_significand [OF that] by (simp_all add: m_def)
    show ?thesis
    proof (cases "m = 2 ^ 53")
      case True
      have up: "(2::rat) powi (ilog2 q - 52 + 1) = 2 powi (ilog2 q - 52) * 2"
        using power_int_add [of "2::rat" "ilog2 q - 52" 1] by simp
      have "round_double q = of_int (2 ^ 52) * 2 powi (ilog2 q - 52 + 1)"
        unfolding r True up by simp
      then show ?thesis
        using round_double_representable [of "2 ^ 52" "ilog2 q - 52 + 1"] by simp
    next
      case False
      then have "m < 2 ^ 53" using b by simp
      then show ?thesis
        using round_double_representable [OF b(1), of "ilog2 q - 52"] by (simp add: r)
    qed
  qed
  consider "q = 0" | "0 < q" | "q < 0" by linarith
  then show ?thesis
  proof cases
    case 1
    then show ?thesis by (simp add: round_double_def)
  next
    case 2
    then show ?thesis by (rule pos)
  next
    case 3
    then have "0 < - q" by simp
    from pos [OF this] show ?thesis
      by (simp add: round_double_minus)
  qed
qed

lemma fdiv_pow2: "fdiv x (2 ^ n) = round_double x * 2 powi (- int n)"
proof -
  have "x / 2 ^ n = x * 2 powi (- int n)"
    by (simp add: power_int_minus field_simps)
  then show ?thesis
    by (simp add: fdiv_def round_double_scale)
qed

text \<open>Dividing a double by a power of two is exact.\<close>

lemma fdiv_double_pow2: "fdiv (round_double x) (2 ^ n) = round_double x / 2 ^ n"
  by (simp add: fdiv_pow2 round_double_idem power_int_minus field_simps)

lemma mib_exact: "mib d = double_of_u64 (bytes d) / 1048576"
proof -
  have a: "(1024::rat) = 2 ^ 10"
    by simp
  have "fdiv (double_of_u64 (bytes d)) 1024 = round_double (double_of_u64 (bytes d) / 2 ^ 10)"
    by (simp add: fdiv_def)
  have 1: "fdiv (double_of_u64 (bytes d)) (2 ^ 10) = double_of_u64 (bytes d) / 2 ^ 10"
    unfolding double_of_u64_def by (rule fdiv_double_pow2)
  have "double_of_u64 (bytes d) / 2 ^ 10 = round_double (double_of_u64 (bytes d) / 2 ^ 10)"
    using 1 by (simp add: fdiv_def)
  then have 2: "fdiv (double_of_u64 (bytes d) / 2 ^ 10) (2 ^ 10) = double_of_u64 (bytes d) / 2 ^ 10 / 2 ^ 10"
    by (metis fdiv_double_pow2)
  show ?thesis
    unfolding mib_def a 1 2 by simp
qed

lemma mib_one_division: "mib d = fdiv (double_of_u64 (bytes d)) 1048576"
proof -
  have "fdiv (double_of_u64 (bytes d)) (2 ^ 20) = double_of_u64 (bytes d) / 2 ^ 20"
    unfolding double_of_u64_def by (rule fdiv_double_pow2)
  then have "fdiv (double_of_u64 (bytes d)) 1048576 = double_of_u64 (bytes d) / 1048576"
    by simp
  then show ?thesis
    by (simp only: mib_exact)
qed

lemma round_double_bounds:
  assumes "0 < q"
  shows "2 powi ilog2 q \<le> round_double q \<and> round_double q \<le> 2 powi (ilog2 q + 1)"
proof -
  define m where "m = round_even (q / 2 powi (ilog2 q - 52))"
  have "2 ^ 52 \<le> m" and "m \<le> 2 ^ 53"
    using round_even_significand [OF assms] by (simp_all add: m_def)
  then have "(of_int (2 ^ 52) :: rat) \<le> of_int m" and "(of_int m :: rat) \<le> of_int (2 ^ 53)"
    by (simp_all only: of_int_le_iff)
  then have m: "(2 ^ 52 :: rat) \<le> of_int m" "(of_int m :: rat) \<le> 2 ^ 53"
    by simp_all
  have r: "round_double q = of_int m * 2 powi (ilog2 q - 52)"
    by (simp add: round_double_pos [OF assms] m_def)
  have lo: "(2::rat) powi ilog2 q = 2 ^ 52 * 2 powi (ilog2 q - 52)"
    by (simp add: power_int_diff)
  have hi: "(2::rat) powi (ilog2 q + 1) = 2 ^ 53 * 2 powi (ilog2 q - 52)"
    by (simp add: power_int_diff power_int_add)
  show ?thesis
    unfolding r lo hi using m by (simp add: mult_right_mono)
qed

lemma double_of_u64_range:
  "double_of_u64 n = 0 \<or> (1 \<le> double_of_u64 n \<and> double_of_u64 n \<le> 2 ^ 64)"
proof (cases "unat n = 0")
  case True
  then show ?thesis by (simp add: double_of_u64_def round_double_def)
next
  case False
  define q :: rat where "q = of_nat (unat n)"
  have "unat n < 2 ^ 64"
    using unsigned_less [of n, where 'a = nat] by simp
  then have "(of_nat (unat n) :: rat) < of_nat (2 ^ 64)"
    by (simp only: of_nat_less_iff)
  then have lt: "q < 2 ^ 64"
    by (simp add: q_def)
  have "1 \<le> unat n"
    using False by simp
  then have "(of_nat 1 :: rat) \<le> of_nat (unat n)"
    by (simp only: of_nat_le_iff)
  then have ge: "1 \<le> q"
    by (simp add: q_def)
  then have pos: "0 < q" by simp
  have "(2::rat) powi ilog2 q < 2 powi 64"
    using ilog2_bounds [OF pos] lt by simp
  then have e_hi: "ilog2 q + 1 \<le> 64"
    by (metis power_int_increasing not_less one_le_numeral zless_imp_add1_zle)
  have "(2::rat) powi 0 < 2 powi (ilog2 q + 1)"
    using ilog2_bounds [OF pos] ge by simp
  then have e_lo: "0 \<le> ilog2 q"
    by (metis power_int_increasing not_less one_le_numeral zless_imp_add1_zle add.commute
        add_le_cancel_left zle_add1_eq_le less_le_not_le)
  have "(2::rat) powi 0 \<le> 2 powi ilog2 q"
    using e_lo by (intro power_int_increasing) simp_all
  moreover have "(2::rat) powi (ilog2 q + 1) \<le> 2 powi 64"
    using e_hi by (intro power_int_increasing) simp_all
  ultimately have "1 \<le> round_double q \<and> round_double q \<le> 2 ^ 64"
    using round_double_bounds [OF pos] by simp
  then show ?thesis
    by (simp add: double_of_u64_def q_def)
qed

text \<open>
  The values of \<open>mib()\<close> are 0 or between \<open>2^-20\<close> and \<open>2^44\<close>, and its intermediate
  results between \<open>2^-10\<close> and \<open>2^64\<close>: all normal binary64 numbers.
\<close>

lemma mib_range: "mib d = 0 \<or> (1 / 2 ^ 20 \<le> mib d \<and> mib d \<le> 2 ^ 44)"
proof -
  have "mib d = double_of_u64 (bytes d) / 2 ^ 20"
    by (simp add: mib_exact)
  then show ?thesis
    using double_of_u64_range [of "bytes d"] by (auto simp: field_simps)
qed

subsection \<open>Byte deltas\<close>

lemma bytes_uint: "uint (bytes d) = (uint (end_v d) - uint (begin_v d)) mod 2 ^ 64"
  by (simp add: bytes_def uint_word_ariths)

lemma bytes_wrapped:
  assumes "end_v d < begin_v d"
  shows "uint (bytes d) = uint (end_v d) - uint (begin_v d) + 2 ^ 64"
proof -
  have lt: "uint (end_v d) < uint (begin_v d)"
    using assms by (simp add: word_less_def)
  have "0 \<le> uint (end_v d)" and "uint (begin_v d) < 2 ^ 64"
    using uint_lt2p [of "begin_v d"] by simp_all
  then have "0 \<le> uint (end_v d) - uint (begin_v d) + 2 ^ 64"
    and "uint (end_v d) - uint (begin_v d) + 2 ^ 64 < 2 ^ 64"
    using lt by linarith+
  then have "(uint (end_v d) - uint (begin_v d) + 2 ^ 64) mod 2 ^ 64 =
      uint (end_v d) - uint (begin_v d) + 2 ^ 64"
    by (simp only: mod_pos_pos_trivial)
  moreover have "(uint (end_v d) - uint (begin_v d) + 2 ^ 64) mod 2 ^ 64 =
      (uint (end_v d) - uint (begin_v d)) mod 2 ^ 64"
    by simp
  ultimately show ?thesis
    by (simp only: bytes_uint)
qed

lemma bytes_plain:
  assumes "begin_v d \<le> end_v d"
  shows "uint (bytes d) = uint (end_v d) - uint (begin_v d)"
proof -
  have le: "uint (begin_v d) \<le> uint (end_v d)"
    using assms by (simp add: word_le_def)
  have "0 \<le> uint (begin_v d)" and "uint (end_v d) < 2 ^ 64"
    using uint_lt2p [of "end_v d"] by simp_all
  then have "0 \<le> uint (end_v d) - uint (begin_v d)"
    and "uint (end_v d) - uint (begin_v d) < 2 ^ 64"
    using le by linarith+
  then show ?thesis
    by (simp only: bytes_uint mod_pos_pos_trivial)
qed

lemma floor_rat_numeral: "\<lfloor>numeral a / numeral b :: rat\<rfloor> = numeral a div numeral b"
  by (metis floor_divide_of_int_eq of_int_numeral)

lemma bitlen_1: "bitlen 1 = 1"
  by code_simp

lemma bitlen_example: "bitlen 18446744073709551614 = 64" "bitlen 1048576 = 21"
  by code_simp+

subsection \<open>Once finished, a single-counter scope stays as it is\<close>

lemma IOScope_finish_settles:
  "IOScope_finish b s w = (d, s1, w1) \<Longrightarrow> io_settled b s1 d"
  by (auto simp: IOScope_finish_def io_settled_def Let_def split: if_splits prod.splits)

lemma IOScope_finish_settled:
  "io_settled b s d \<Longrightarrow> IOScope_finish b s w = (d, s, w)"
  by (cases s) (auto simp: IOScope_finish_def io_settled_def split: if_splits)

lemma IOScope_finishes_settled:
  "io_settled b s d \<Longrightarrow>
   IOScope_finishes b s w apps =
     (replicate (length apps) d, s, w\<lparr>mem := foldl (\<lambda>m app. app m) (mem w) apps\<rparr>)"
proof (induction apps arbitrary: w)
  case Nil
  show ?case by simp
next
  case (Cons app apps)
  have "IOScope_finish b s (w\<lparr>mem := app (mem w)\<rparr>) = (d, s, w\<lparr>mem := app (mem w)\<rparr>)"
    using Cons.prems by (rule IOScope_finish_settled)
  then show ?case
    using Cons.IH [OF Cons.prems, of "w\<lparr>mem := app (mem w)\<rparr>"] by simp
qed

lemma IOScope_finishes_Cons:
  "IOScope_finish b s (w\<lparr>mem := app (mem w)\<rparr>) = (d, s1, w1) \<Longrightarrow>
   IOScope_finishes b s w (app # apps) =
     (replicate (Suc (length apps)) d, s1, w1\<lparr>mem := foldl (\<lambda>m app. app m) (mem w1) apps\<rparr>)"
  using IOScope_finishes_settled [OF IOScope_finish_settles, of b s _ d s1 w1 w1 apps]
  by simp

lemma IOScope_dtor_finished: "io_finished s \<Longrightarrow> IOScope_dtor b s w = w"
  by (simp add: IOScope_dtor_def)

subsection \<open>The same for the accessor-based scope\<close>

lemma MultiIOScope_finish_settles:
  "MultiIOScope_finish b s w = (d, s1, w1) \<Longrightarrow> mio_settled b s1 d"
  by (auto simp: MultiIOScope_finish_def mio_settled_def Let_def split: if_splits prod.splits)

lemma MultiIOScope_finish_settled:
  "mio_settled b s d \<Longrightarrow> MultiIOScope_finish b s w = (d, s, w)"
  by (cases s) (auto simp: MultiIOScope_finish_def mio_settled_def split: if_splits)

lemma MultiIOScope_finishes_settled:
  "mio_settled b s d \<Longrightarrow>
   MultiIOScope_finishes b s w apps =
     (replicate (length apps) d, s, w\<lparr>mem := foldl (\<lambda>m app. app m) (mem w) apps\<rparr>)"
proof (induction apps arbitrary: w)
  case Nil
  show ?case by simp
next
  case (Cons app apps)
  have "MultiIOScope_finish b s (w\<lparr>mem := app (mem w)\<rparr>) = (d, s, w\<lparr>mem := app (mem w)\<rparr>)"
    using Cons.prems by (rule MultiIOScope_finish_settled)
  then show ?case
    using Cons.IH [OF Cons.prems, of "w\<lparr>mem := app (mem w)\<rparr>"] by simp
qed

lemma MultiIOScope_finishes_Cons:
  "MultiIOScope_finish b s (w\<lparr>mem := app (mem w)\<rparr>) = (d, s1, w1) \<Longrightarrow>
   MultiIOScope_finishes b s w (app # apps) =
     (replicate (Suc (length apps)) d, s1, w1\<lparr>mem := foldl (\<lambda>m app. app m) (mem w1) apps\<rparr>)"
  using MultiIOScope_finishes_settled [OF MultiIOScope_finish_settles, of b s _ d s1 w1 w1 apps]
  by simp

lemma MultiIOScope_dtor_finished: "mio_finished s \<Longrightarrow> MultiIOScope_dtor b s w = w"
  by (simp add: MultiIOScope_dtor_def)

subsection \<open>Whole lifetimes of the I/O scopes\<close>

lemma IOScope_life_Nil:
  "IOScope_life b counter label [] fin w =
     (let (s, w1) = IOScope_ctor b counter label w
      in ([], IOScope_dtor b s (w1\<lparr>mem := fin (mem w1)\<rparr>)))"
  by (simp add: IOScope_life_def split: prod.split)

lemma IOScope_life_Cons:
  "IOScope_life b counter label (app # apps) fin w =
     (let (s, w1) = IOScope_ctor b counter label w;
          (d, s1, w2) = IOScope_finish b s (w1\<lparr>mem := app (mem w1)\<rparr>)
      in (replicate (Suc (length apps)) d,
          w2\<lparr>mem := fin (foldl (\<lambda>m app. app m) (mem w2) apps)\<rparr>))"
proof -
  obtain s w1 where c: "IOScope_ctor b counter label w = (s, w1)"
    by (cases "IOScope_ctor b counter label w")
  obtain d s1 w2 where f: "IOScope_finish b s (w1\<lparr>mem := app (mem w1)\<rparr>) = (d, s1, w2)"
    by (cases "IOScope_finish b s (w1\<lparr>mem := app (mem w1)\<rparr>)")
  have fin: "io_finished s1"
    using IOScope_finish_settles [OF f] by (simp add: io_settled_def)
  show ?thesis
    by (simp add: IOScope_life_def c f IOScope_finishes_Cons [where w = w1 and app = app, OF f]
        IOScope_dtor_finished [OF fin] del: IOScope_finishes.simps)
qed

lemma MultiIOScope_life_Nil:
  "MultiIOScope_life b rd label [] fin w =
     (let (s, w1) = MultiIOScope_ctor b rd label w
      in ([], MultiIOScope_dtor b s (w1\<lparr>mem := fin (mem w1)\<rparr>)))"
  by (simp add: MultiIOScope_life_def split: prod.split)

lemma MultiIOScope_life_Cons:
  "MultiIOScope_life b rd label (app # apps) fin w =
     (let (s, w1) = MultiIOScope_ctor b rd label w;
          (d, s1, w2) = MultiIOScope_finish b s (w1\<lparr>mem := app (mem w1)\<rparr>)
      in (replicate (Suc (length apps)) d,
          w2\<lparr>mem := fin (foldl (\<lambda>m app. app m) (mem w2) apps)\<rparr>))"
proof -
  obtain s w1 where c: "MultiIOScope_ctor b rd label w = (s, w1)"
    by (cases "MultiIOScope_ctor b rd label w")
  obtain d s1 w2 where f: "MultiIOScope_finish b s (w1\<lparr>mem := app (mem w1)\<rparr>) = (d, s1, w2)"
    by (cases "MultiIOScope_finish b s (w1\<lparr>mem := app (mem w1)\<rparr>)")
  have fin: "mio_finished s1"
    using MultiIOScope_finish_settles [OF f] by (simp add: mio_settled_def)
  show ?thesis
    by (simp add: MultiIOScope_life_def c f
        MultiIOScope_finishes_Cons [where w = w1 and app = app, OF f]
        MultiIOScope_dtor_finished [OF fin] del: MultiIOScope_finishes.simps)
qed

lemma IOScope_life_reads:
  "reads (emitted w (snd (IOScope_life b counter label apps fin w))) \<le> 2"
proof (cases apps)
  case Nil
  then show ?thesis
    by (auto simp add: IOScope_life_Nil IOScope_ctor_def IOScope_dtor_def IOScope_default_def
        deref_def io_report_def put_def reads_def Let_def split: option.split)
next
  case (Cons app rest)
  then show ?thesis
    by (auto simp add: IOScope_life_Cons IOScope_ctor_def IOScope_finish_def IOScope_default_def
        deref_def reads_def Let_def split: option.split)
qed

lemma MultiIOScope_life_reads:
  "reads (emitted w (snd (MultiIOScope_life b rd label apps fin w))) \<le> 2"
proof (cases apps)
  case Nil
  then show ?thesis
    by (auto simp add: MultiIOScope_life_Nil MultiIOScope_ctor_def MultiIOScope_dtor_def
        MultiIOScope_default_def invoke_def io_report_def put_def reads_def Let_def
        split: option.split prod.split)
next
  case (Cons app rest)
  then show ?thesis
    by (auto simp add: MultiIOScope_life_Cons MultiIOScope_ctor_def MultiIOScope_finish_def
        MultiIOScope_default_def invoke_def reads_def Let_def split: option.split prod.split)
qed

lemma IOScope_finish_twice:
  assumes "enabled b"
  shows "(let (d, s1, w1) = IOScope_finish b s w in
            d = (if io_finished s then io_last s
                 else \<lparr>begin_v = io_begin s,
                       end_v = (case io_counter s of Some a \<Rightarrow> mem w a | None \<Rightarrow> io_begin s)\<rparr>) \<and>
            io_finished s1 \<and> io_last s1 = d \<and> IOScope_finish b s1 w' = (d, s1, w'))"
  using assms by (cases s) (auto simp: IOScope_finish_def deref_def Let_def split: option.split)

lemma MultiIOScope_finish_twice:
  assumes "enabled b"
  shows "(let (d, s1, w1) = MultiIOScope_finish b s w in
            d = (if mio_finished s then mio_last s
                 else \<lparr>begin_v = mio_begin s,
                       end_v = (case mio_reader s of Some r \<Rightarrow> fst (r (mem w)) | None \<Rightarrow> mio_begin s)\<rparr>) \<and>
            mio_finished s1 \<and> mio_last s1 = d \<and> MultiIOScope_finish b s1 w' = (d, s1, w'))"
  using assms by (cases s) (auto simp: MultiIOScope_finish_def invoke_def Let_def split: option.split prod.split)

lemma IOScope_life_finished:
  assumes "enabled b"
  shows "IOScope_life b (Some a) label (app # apps) fin w =
           (replicate (Suc (length apps)) \<lparr>begin_v = mem w a, end_v = app (mem w) a\<rparr>,
            w\<lparr>mem := fin (foldl (\<lambda>m app. app m) (app (mem w)) apps),
              events := events w @ [Deref a, Deref a]\<rparr>)"
  using assms
  by (simp add: IOScope_life_Cons IOScope_ctor_def IOScope_finish_def IOScope_default_def deref_def
      log_event_def Let_def)

lemma MultiIOScope_life_finished:
  assumes "enabled b"
  shows "MultiIOScope_life b (Some r) label (app # apps) fin w =
           (let (v0, m0) = r (mem w); (v1, m1) = r (app m0)
            in (replicate (Suc (length apps)) \<lparr>begin_v = v0, end_v = v1\<rparr>,
                w\<lparr>mem := fin (foldl (\<lambda>m app. app m) m1 apps),
                  events := events w @ [Invoke, Invoke]\<rparr>))"
  using assms
  by (simp add: MultiIOScope_life_Cons MultiIOScope_ctor_def MultiIOScope_finish_def
      MultiIOScope_default_def invoke_def log_event_def Let_def split: prod.split)


lemma IOScope_life_puts:
  "puts (emitted w (snd (IOScope_life b counter label apps fin w))) \<noteq> [] \<longleftrightarrow>
     enabled b \<and> apps = [] \<and> counter \<noteq> None \<and> label \<noteq> []"
proof (cases apps)
  case Nil
  then show ?thesis
    by (auto simp add: IOScope_life_Nil IOScope_ctor_def IOScope_dtor_def IOScope_default_def
        deref_def io_report_def put_def Let_def split: option.split)
next
  case (Cons app rest)
  then show ?thesis
    by (auto simp add: IOScope_life_Cons IOScope_ctor_def IOScope_finish_def IOScope_default_def
        deref_def Let_def split: option.split)
qed

lemma MultiIOScope_life_puts:
  "puts (emitted w (snd (MultiIOScope_life b rd label apps fin w))) \<noteq> [] \<longleftrightarrow>
     enabled b \<and> apps = [] \<and> rd \<noteq> None \<and> label \<noteq> []"
proof (cases apps)
  case Nil
  then show ?thesis
    by (auto simp add: MultiIOScope_life_Nil MultiIOScope_ctor_def MultiIOScope_dtor_def
        MultiIOScope_default_def invoke_def io_report_def put_def Let_def
        split: option.split prod.split)
next
  case (Cons app rest)
  then show ?thesis
    by (auto simp add: MultiIOScope_life_Cons MultiIOScope_ctor_def MultiIOScope_finish_def
        MultiIOScope_default_def invoke_def Let_def split: option.split prod.split)
qed

lemma IOScope_dtor_puts:
  "puts (emitted w (IOScope_dtor b s w)) \<noteq> [] \<longleftrightarrow>
     enabled b \<and> \<not> io_finished s \<and> io_counter s \<noteq> None \<and> io_label s \<noteq> []"
  by (auto simp add: IOScope_dtor_def deref_def io_report_def put_def Let_def split: option.split)

lemma MultiIOScope_dtor_puts:
  "puts (emitted w (MultiIOScope_dtor b s w)) \<noteq> [] \<longleftrightarrow>
     enabled b \<and> \<not> mio_finished s \<and> mio_reader s \<noteq> None \<and> mio_label s \<noteq> []"
  by (auto simp add: MultiIOScope_dtor_def invoke_def io_report_def put_def Let_def
      split: option.split prod.split)

lemma IOScope_ctor_finish_silent:
  "puts (emitted w (snd (IOScope_ctor b c l w))) = [] \<and>
   puts (emitted w (snd (snd (IOScope_finish b s w)))) = []"
  by (auto simp add: IOScope_ctor_def IOScope_finish_def deref_def Let_def split: option.split)

lemma MultiIOScope_ctor_finish_silent:
  "puts (emitted w (snd (MultiIOScope_ctor b c l w))) = [] \<and>
   puts (emitted w (snd (snd (MultiIOScope_finish b s w)))) = []"
  by (auto simp add: MultiIOScope_ctor_def MultiIOScope_finish_def invoke_def Let_def
      split: option.split prod.split)

lemma IOScope_life_null:
  "IOScope_life b None label apps fin w =
     (replicate (length apps) \<lparr>begin_v = 0, end_v = 0\<rparr>,
      w\<lparr>mem := fin (foldl (\<lambda>m app. app m) (mem w) apps)\<rparr>)"
proof (cases apps)
  case Nil
  then show ?thesis
    by (simp add: IOScope_life_Nil IOScope_ctor_def IOScope_dtor_def IOScope_default_def Let_def)
next
  case (Cons app rest)
  then show ?thesis
    by (simp add: IOScope_life_Cons IOScope_ctor_def IOScope_finish_def IOScope_default_def Let_def)
qed

lemma MultiIOScope_life_null:
  "MultiIOScope_life b None label apps fin w =
     (replicate (length apps) \<lparr>begin_v = 0, end_v = 0\<rparr>,
      w\<lparr>mem := fin (foldl (\<lambda>m app. app m) (mem w) apps)\<rparr>)"
proof (cases apps)
  case Nil
  then show ?thesis
    by (simp add: MultiIOScope_life_Nil MultiIOScope_ctor_def MultiIOScope_dtor_def
        MultiIOScope_default_def Let_def)
next
  case (Cons app rest)
  then show ?thesis
    by (simp add: MultiIOScope_life_Cons MultiIOScope_ctor_def MultiIOScope_finish_def
        MultiIOScope_default_def Let_def)
qed

subsection \<open>What the timers insert\<close>

lemma console_append: "console st (xs @ ys) = console st xs @ console st ys"
  by (induction st xs rule: console.induct) simp_all

lemma puts_append: "puts (xs @ ys) = puts xs @ puts ys"
  by (induction xs rule: puts.induct) simp_all

lemma clock_reads_append: "clock_reads (xs @ ys) = clock_reads xs + clock_reads ys"
  by (simp add: clock_reads_def)

lemma ScopedTimer_dtor_enabled:
  "enabled b \<Longrightarrow>
   ScopedTimer_dtor b s w =
     Inr (w\<lparr>events := events w @
            time_line (ljust (fill_char w Cout) 28 (case st_label s of None \<Rightarrow> [] | Some l \<Rightarrow> l))
              (show_double b (ms_of_ticks b (now_tp w - st_t0 s)))\<rparr>)"
  by (simp add: ScopedTimer_dtor_def put_cstr_def put_def ms_since_def clock_now_def log_event_def
      time_line_def Let_def split: option.split)

lemma ScopedTimer_life_enabled:
  "enabled b \<Longrightarrow>
   ScopedTimer_life b lbl t_end w =
     Inr (w\<lparr>now_tp := t_end, events := events w @ Now #
            time_line (ljust (fill_char w Cout) 28 (case lbl of None \<Rightarrow> [] | Some l \<Rightarrow> l))
              (show_double b (ms_of_ticks b (t_end - now_tp w)))\<rparr>)"
  by (simp add: ScopedTimer_life_def ScopedTimer_ctor_def ScopedTimer_dtor_enabled clock_now_def
      log_event_def)

lemma StageTimer_done_enabled:
  "enabled b \<Longrightarrow>
   StageTimer_done b s w =
     w\<lparr>events := events w @
         time_line (ljust (fill_char w Cout) 28 ''TOTAL'') (show_double b (ms_of_ticks b (now_tp w - sg_t0 s)))\<rparr>"
  by (simp add: StageTimer_done_def put_def ms_since_def clock_now_def log_event_def
      time_line_def Let_def)

lemma StageTimer_dones_enabled:
  "enabled b \<Longrightarrow>
   StageTimer_dones b s w ts =
     w\<lparr>now_tp := (if ts = [] then now_tp w else last ts),
       events := events w @
         concat (map (\<lambda>t. time_line (ljust (fill_char w Cout) 28 ''TOTAL'')
                        (show_double b (ms_of_ticks b (t - sg_t0 s)))) ts)\<rparr>"
proof (induction ts arbitrary: w)
  case Nil
  show ?case by simp
next
  case (Cons t ts)
  show ?case
    by (simp add: Cons.IH [OF Cons.prems] StageTimer_done_enabled [OF Cons.prems])
qed

lemma StageTimer_ctor_enabled:
  "enabled b \<Longrightarrow>
   StageTimer_ctor b n pref w =
     Inr (\<lparr>sg_prefix = pref, sg_name = n, sg_t0 = now_tp w\<rparr>,
          w\<lparr>events := events w @ stage_header pref n\<rparr>)"
  by (simp add: StageTimer_ctor_def put_cstr_def put_def clock_now_def log_event_def ljust_def
      stage_header_def Let_def split: option.split)

lemma StageTimer_life_enabled:
  "enabled b \<Longrightarrow>
   StageTimer_life b n pref ts w =
     Inr (w\<lparr>now_tp := (if ts = [] then now_tp w else last ts),
            events := events w @ stage_header pref n @
              concat (map (\<lambda>t. time_line (ljust (fill_char w Cout) 28 ''TOTAL'')
                             (show_double b (ms_of_ticks b (t - now_tp w)))) ts)\<rparr>)"
  by (simp add: StageTimer_life_def StageTimer_ctor_enabled StageTimer_dones_enabled
      StageTimer_dtor_def)

lemma console_time_line: "console Cout (time_line f ms) = ''  [time] '' @ f @ ms @ '' ms\<newline>''"
  by (simp add: time_line_def)

lemma console_concat_time_lines:
  "console Cout (concat (map (\<lambda>t. time_line f (g t)) ts)) =
     concat (map (\<lambda>t. ''  [time] '' @ f @ g t @ '' ms\<newline>'') ts)"
  by (induction ts) (simp_all add: console_append console_time_line)

lemma clock_reads_concat_time_lines:
  "clock_reads (concat (map (\<lambda>t. time_line f (g t)) ts)) = length ts"
  by (induction ts) (simp_all add: clock_reads_append, simp_all add: clock_reads_def time_line_def)



lemma ScopedTimer_life_disabled:
  "\<not> enabled b \<Longrightarrow> ScopedTimer_life b lbl t_end w = Inr (w\<lparr>now_tp := t_end\<rparr>)"
  by (simp add: ScopedTimer_life_def ScopedTimer_ctor_def ScopedTimer_dtor_def)



lemma emitted_update [simp]:
  "emitted w (w\<lparr>events := events w @ es\<rparr>) = es"
  "emitted w (w\<lparr>now_tp := t, events := events w @ es\<rparr>) = es"
  "emitted w (w\<lparr>now_tp := t\<rparr>) = []"
  by (simp_all add: emitted_def)

subsection \<open>The lock and the streams\<close>






section \<open>The claim about byte deltas\<close>

text \<open>
  C4. \<open>bytes()\<close> is the difference of the two snapshots modulo \<open>2^64\<close>: the plain
  difference when \<open>end\<close> is not below \<open>begin\<close>, and the difference plus \<open>2^64\<close> when it
  is, in every case a number from 0 up to \<open>2^64 - 1\<close>; the function is total, so there is
  no failure and nothing is clamped. \<open>mib()\<close>, computed as \<open>double(bytes()) / 1024.0 /
  1024.0\<close>, is the one binary64 division of \<open>double(bytes())\<close> by 1048576.0.
\<close>

theorem bytes_wraps_and_mib_is_one_division:
  "uint (bytes d) = (uint (end_v d) - uint (begin_v d)) mod 2 ^ 64 \<and>
   (if end_v d < begin_v d then uint (bytes d) = uint (end_v d) - uint (begin_v d) + 2 ^ 64
    else uint (bytes d) = uint (end_v d) - uint (begin_v d)) \<and>
   0 \<le> uint (bytes d) \<and> uint (bytes d) < 2 ^ 64 \<and>
   mib d = fdiv (double_of_u64 (bytes d)) 1048576"
proof -
  have "uint (bytes d) < 2 ^ 64"
    using uint_lt2p [of "bytes d"] by simp
  then show ?thesis
    using bytes_uint [of d] bytes_wrapped [of d] bytes_plain [of d] mib_one_division [of d]
    by (simp add: not_less)
qed

theorem bytes_wraps_and_mib_is_one_division_witness:
  "bytes \<lparr>begin_v = 5, end_v = 3\<rparr> = 18446744073709551614 \<and>
   double_of_u64 18446744073709551614 = 18446744073709551616 \<and>
   mib \<lparr>begin_v = 5, end_v = 3\<rparr> = 17592186044416 \<and>
   bytes \<lparr>begin_v = 1000, end_v = 1049576\<rparr> = 1048576 \<and>
   mib \<lparr>begin_v = 1000, end_v = 1049576\<rparr> = 1"
proof -
  have b1: "bytes \<lparr>begin_v = 5, end_v = 3\<rparr> = 18446744073709551614"
    and b2: "bytes \<lparr>begin_v = 1000, end_v = 1049576\<rparr> = 1048576"
    by (simp_all add: bytes_def)
  have d1: "double_of_u64 18446744073709551614 = 18446744073709551616"
    by (simp add: double_of_u64_def round_double_def ilog2_def bitlen_example bitlen_1
        round_even_def Let_def power_int_minus floor_rat_numeral)
  have d2: "double_of_u64 1048576 = 1048576"
    by (simp add: double_of_u64_def round_double_def ilog2_def bitlen_example bitlen_1
        round_even_def Let_def power_int_minus floor_rat_numeral)
  have r1: "round_double 17592186044416 = 17592186044416"
    using round_double_representable [of "2 ^ 52" "- 8"] by (simp add: power_int_minus)
  have r2: "round_double 1 = 1"
    using round_double_representable [of "2 ^ 52" "- 52"] by (simp add: power_int_minus)
  have "mib \<lparr>begin_v = 5, end_v = 3\<rparr> = 17592186044416"
    using bytes_wraps_and_mib_is_one_division [of "\<lparr>begin_v = 5, end_v = 3\<rparr>"]
    by (simp add: b1 d1 fdiv_def r1)
  moreover have "mib \<lparr>begin_v = 1000, end_v = 1049576\<rparr> = 1"
    using bytes_wraps_and_mib_is_one_division [of "\<lparr>begin_v = 1000, end_v = 1049576\<rparr>"]
    by (simp add: b2 d2 fdiv_def r2)
  ultimately show ?thesis
    using b1 b2 d1 by simp
qed

section \<open>Claims about the I/O scopes\<close>

text \<open>
  C1. In an enabled build, for the single-counter and for the accessor-based scope: the
  first \<open>finish()\<close> computes the delta from the begin snapshot and the source's current
  value, stores it and marks the scope finished; a later \<open>finish()\<close>, in whatever world,
  returns that same delta and leaves scope and world as they are, so it reads nothing.
  Over the lifetime of a scope that has a source and is finished at least once, the
  source is read exactly twice, by the constructor and by the first \<open>finish()\<close>, and all
  calls return the one delta; over any lifetime at all it is read at most twice.
\<close>

theorem finish_computes_once_then_caches:
  assumes "enabled b"
  shows "(let (d, s1, w1) = IOScope_finish b s w in
            d = (if io_finished s then io_last s
                 else \<lparr>begin_v = io_begin s,
                       end_v = (case io_counter s of Some a \<Rightarrow> mem w a | None \<Rightarrow> io_begin s)\<rparr>) \<and>
            io_finished s1 \<and> io_last s1 = d \<and> IOScope_finish b s1 w' = (d, s1, w')) \<and>
         IOScope_life b (Some a) label (app # apps) fin w =
           (replicate (Suc (length apps)) \<lparr>begin_v = mem w a, end_v = app (mem w) a\<rparr>,
            w\<lparr>mem := fin (foldl (\<lambda>m app. app m) (app (mem w)) apps),
              events := events w @ [Deref a, Deref a]\<rparr>) \<and>
         reads (emitted w (snd (IOScope_life b counter label calls fin w))) \<le> 2 \<and>
         (let (d, s1, w1) = MultiIOScope_finish b ms w in
            d = (if mio_finished ms then mio_last ms
                 else \<lparr>begin_v = mio_begin ms,
                       end_v = (case mio_reader ms of Some r \<Rightarrow> fst (r (mem w))
                                | None \<Rightarrow> mio_begin ms)\<rparr>) \<and>
            mio_finished s1 \<and> mio_last s1 = d \<and> MultiIOScope_finish b s1 w' = (d, s1, w')) \<and>
         MultiIOScope_life b (Some r) label (app # apps) fin w =
           (let (v0, m0) = r (mem w); (v1, m1) = r (app m0)
            in (replicate (Suc (length apps)) \<lparr>begin_v = v0, end_v = v1\<rparr>,
                w\<lparr>mem := fin (foldl (\<lambda>m app. app m) m1 apps),
                  events := events w @ [Invoke, Invoke]\<rparr>)) \<and>
         reads (emitted w (snd (MultiIOScope_life b rd label calls fin w))) \<le> 2"
  by (intro conjI IOScope_finish_twice [OF assms] IOScope_life_finished [OF assms]
      IOScope_life_reads MultiIOScope_finish_twice [OF assms]
      MultiIOScope_life_finished [OF assms] MultiIOScope_life_reads)

theorem finish_computes_once_then_caches_witness:
  "enabled build_on \<and>
   fst (IOScope_life build_on (Some 0) ''net'' [\<lambda>m. m(0 := 1049576), \<lambda>m. m(0 := 7)] id world0) =
     [\<lparr>begin_v = 1000, end_v = 1049576\<rparr>, \<lparr>begin_v = 1000, end_v = 1049576\<rparr>] \<and>
   events (snd (IOScope_life build_on (Some 0) ''net'' [\<lambda>m. m(0 := 1049576), \<lambda>m. m(0 := 7)] id world0)) =
     [Deref 0, Deref 0] \<and>
   fst (MultiIOScope_life build_on (Some sum01) ''all''
          [\<lambda>m. m(0 := 900, 1 := 1300), \<lambda>m. m(0 := 0)] id (world0\<lparr>mem := (\<lambda>a. 0)(0 := 500, 1 := 700)\<rparr>)) =
     [\<lparr>begin_v = 1200, end_v = 2200\<rparr>, \<lparr>begin_v = 1200, end_v = 2200\<rparr>] \<and>
   bytes \<lparr>begin_v = 1000, end_v = 1049576\<rparr> = 1048576 \<and>
   bytes \<lparr>begin_v = 1200, end_v = 2200\<rparr> = 1000"
  using finish_computes_once_then_caches
    [where b = build_on and s = IOScope_default and w' = world0 and a = 0 and label = "''net''"
       and app = "\<lambda>m. m(0 := 1049576)" and apps = "[\<lambda>m. m(0 := 7)]" and fin = id
       and w = world0 and counter = None and calls = "[]" and ms = MultiIOScope_default
       and r = sum01 and rd = None]
    finish_computes_once_then_caches
    [where b = build_on and s = IOScope_default and w' = world0 and a = 0 and label = "''all''"
       and app = "\<lambda>m. m(0 := 900, 1 := 1300)" and apps = "[\<lambda>m. m(0 := 0)]" and fin = id
       and w = "world0\<lparr>mem := (\<lambda>a. 0)(0 := 500, 1 := 700)\<rparr>" and counter = None
       and calls = "[]" and ms = MultiIOScope_default and r = sum01 and rd = None]
  by (simp add: build_on_def world0_def sum01_def bytes_def)


text \<open>
  C2. In either build and for both scope types: the destructor inserts text exactly when
  the build is enabled, \<open>finish()\<close> has not been called, the source is present and
  the label is not empty. \<open>finish()\<close> always leaves the scope finished, and over a whole
  lifetime text is inserted exactly when the build is enabled, \<open>finish()\<close> was never
  called, a source was given and the label is not empty: a lifetime with a call of
  \<open>finish()\<close>, or with an empty label, inserts nothing anywhere.
\<close>

theorem implicit_report_iff_unfinished_labelled:
  "(puts (emitted w (IOScope_dtor b s w)) \<noteq> [] \<longleftrightarrow>
      enabled b \<and> \<not> io_finished s \<and> io_counter s \<noteq> None \<and> io_label s \<noteq> []) \<and>
   io_finished (fst (snd (IOScope_finish b s w))) \<and>
   (puts (emitted w (snd (IOScope_life b counter label apps fin w))) \<noteq> [] \<longleftrightarrow>
      enabled b \<and> apps = [] \<and> counter \<noteq> None \<and> label \<noteq> []) \<and>
   (puts (emitted w (MultiIOScope_dtor b ms w)) \<noteq> [] \<longleftrightarrow>
      enabled b \<and> \<not> mio_finished ms \<and> mio_reader ms \<noteq> None \<and> mio_label ms \<noteq> []) \<and>
   mio_finished (fst (snd (MultiIOScope_finish b ms w))) \<and>
   (puts (emitted w (snd (MultiIOScope_life b rd label apps fin w))) \<noteq> [] \<longleftrightarrow>
      enabled b \<and> apps = [] \<and> rd \<noteq> None \<and> label \<noteq> [])"
proof -
  have "io_finished (fst (snd (IOScope_finish b s w)))"
    by (simp add: IOScope_finish_def Let_def split: prod.split)
  moreover have "mio_finished (fst (snd (MultiIOScope_finish b ms w)))"
    by (simp add: MultiIOScope_finish_def Let_def split: prod.split)
  ultimately show ?thesis
    by (intro conjI IOScope_dtor_puts IOScope_life_puts MultiIOScope_dtor_puts
        MultiIOScope_life_puts)
qed

theorem implicit_report_iff_unfinished_labelled_witness:
  "puts (emitted world0 (snd (IOScope_life build_on (Some 0) ''net'' [] id world0))) =
     [Cerr, Cerr, Cerr, Cerr, Cerr, Cerr, Cerr] \<and>
   puts (emitted world0 (snd (IOScope_life build_on (Some 0) ''net'' [id] id world0))) = [] \<and>
   puts (emitted world0 (snd (IOScope_life build_on (Some 0) [] [] id world0))) = [] \<and>
   puts (emitted world0 (snd (MultiIOScope_life build_on (Some sum01) ''all'' [id] id world0))) = [] \<and>
   puts (emitted world0 (snd (MultiIOScope_life build_on (Some sum01) [] [] id world0))) = []"
proof -
  have a: "puts (emitted world0 (snd (IOScope_life build_on (Some 0) ''net'' [id] id world0))) = []"
    using implicit_report_iff_unfinished_labelled
      [where b = build_on and w = world0 and counter = "Some 0" and label = "''net''"
         and apps = "[id]" and fin = id]
    by simp
  have b: "puts (emitted world0 (snd (IOScope_life build_on (Some 0) [] [] id world0))) = []"
    using implicit_report_iff_unfinished_labelled
      [where b = build_on and w = world0 and counter = "Some 0" and label = "[]"
         and apps = "[]" and fin = id]
    by simp
  have c: "puts (emitted world0 (snd (MultiIOScope_life build_on (Some sum01) ''all'' [id] id world0))) = []"
    using implicit_report_iff_unfinished_labelled
      [where b = build_on and w = world0 and rd = "Some sum01" and label = "''all''"
         and apps = "[id]" and fin = id]
    by simp
  have d: "puts (emitted world0 (snd (MultiIOScope_life build_on (Some sum01) [] [] id world0))) = []"
    using implicit_report_iff_unfinished_labelled
      [where b = build_on and w = world0 and rd = "Some sum01" and label = "[]"
         and apps = "[]" and fin = id]
    by simp
  have e: "puts (emitted world0 (snd (IOScope_life build_on (Some 0) ''net'' [] id world0))) =
     [Cerr, Cerr, Cerr, Cerr, Cerr, Cerr, Cerr]"
    by (simp add: IOScope_life_Nil IOScope_ctor_def IOScope_dtor_def IOScope_default_def deref_def
        io_report_def put_def Let_def build_on_def world0_def)
  from a b c d e show ?thesis by simp
qed

text \<open>
  C3. In either build, a single-counter scope constructed with a null counter pointer
  and an accessor-based scope constructed with an empty accessor do nothing: the begin
  snapshot is 0 and the constructor leaves the world as it is; over the whole lifetime,
  however often \<open>finish()\<close> is called, every call returns the delta with begin and end 0,
  whose \<open>bytes()\<close> is 0, and the final world differs from the initial one only by what
  the application did to its memory: no counter read, no accessor call, no text.
\<close>

theorem absent_source_is_noop:
  "IOScope_ctor b None label w = (IOScope_default\<lparr>io_label := label\<rparr>, w) \<and>
   io_begin (fst (IOScope_ctor b None label w)) = 0 \<and>
   IOScope_life b None label apps fin w =
     (replicate (length apps) \<lparr>begin_v = 0, end_v = 0\<rparr>,
      w\<lparr>mem := fin (foldl (\<lambda>m app. app m) (mem w) apps)\<rparr>) \<and>
   MultiIOScope_ctor b None label w = (MultiIOScope_default\<lparr>mio_label := label\<rparr>, w) \<and>
   mio_begin (fst (MultiIOScope_ctor b None label w)) = 0 \<and>
   MultiIOScope_life b None label apps fin w =
     (replicate (length apps) \<lparr>begin_v = 0, end_v = 0\<rparr>,
      w\<lparr>mem := fin (foldl (\<lambda>m app. app m) (mem w) apps)\<rparr>) \<and>
   end_v \<lparr>begin_v = 0, end_v = 0\<rparr> = begin_v \<lparr>begin_v = 0, end_v = 0\<rparr> \<and>
   bytes \<lparr>begin_v = 0, end_v = 0\<rparr> = 0"
  by (simp add: IOScope_life_null MultiIOScope_life_null IOScope_ctor_def MultiIOScope_ctor_def
      IOScope_default_def MultiIOScope_default_def bytes_def Let_def)

theorem absent_source_is_noop_witness:
  "fst (IOScope_life build_on None ''net'' [\<lambda>m. m(0 := 5), id] id world0) =
     [\<lparr>begin_v = 0, end_v = 0\<rparr>, \<lparr>begin_v = 0, end_v = 0\<rparr>] \<and>
   events (snd (IOScope_life build_on None ''net'' [\<lambda>m. m(0 := 5), id] id world0)) = [] \<and>
   events (snd (IOScope_life build_on None ''net'' [] id world0)) = [] \<and>
   events (snd (MultiIOScope_life build_on None ''all'' [] id world0)) = []"
  using absent_source_is_noop
    [where b = build_on and label = "''net''" and apps = "[\<lambda>m. m(0 := 5), id]" and fin = id
       and w = world0]
    absent_source_is_noop
    [where b = build_on and label = "''net''" and apps = "[]" and fin = id and w = world0]
    absent_source_is_noop
    [where b = build_on and label = "''all''" and apps = "[]" and fin = id and w = world0]
  by (simp add: world0_def)

text \<open>
  C5. With instrumentation compiled out, \<open>ms_since\<close> returns 0.0 and every operation of
  every scope type returns the world it was given, so nothing is written and the clock
  is not read; \<open>finish()\<close> returns the delta with begin and end 0 and only marks the scope
  finished, the timers record the epoch as start instant, and \<open>done()\<close> does nothing.
\<close>

theorem disabled_build_does_nothing:
  assumes "\<not> enabled b"
  shows "ms_since b t0 w = (0, w) \<and>
         print_line b txt w = w \<and>
         IOScope_ctor b c l w = (IOScope_default\<lparr>io_counter := c, io_label := l\<rparr>, w) \<and>
         IOScope_finish b s w = (\<lparr>begin_v = 0, end_v = 0\<rparr>, s\<lparr>io_finished := True\<rparr>, w) \<and>
         IOScope_dtor b s w = w \<and>
         MultiIOScope_ctor b r l w = (MultiIOScope_default\<lparr>mio_reader := r, mio_label := l\<rparr>, w) \<and>
         MultiIOScope_finish b ms w = (\<lparr>begin_v = 0, end_v = 0\<rparr>, ms\<lparr>mio_finished := True\<rparr>, w) \<and>
         MultiIOScope_dtor b ms w = w \<and>
         ScopedTimer_ctor b lbl w = (\<lparr>st_label = lbl, st_t0 = 0\<rparr>, w) \<and>
         ScopedTimer_dtor b st w = Inr w \<and>
         StageTimer_ctor b n pref w = Inr (\<lparr>sg_prefix = pref, sg_name = n, sg_t0 = 0\<rparr>, w) \<and>
         StageTimer_done b sg w = w \<and>
         StageTimer_dtor sg w = w \<and>
         bytes \<lparr>begin_v = 0, end_v = 0\<rparr> = 0"
  using assms
  by (simp add: ms_since_def print_line_def IOScope_ctor_def IOScope_finish_def IOScope_dtor_def
      MultiIOScope_ctor_def MultiIOScope_finish_def MultiIOScope_dtor_def ScopedTimer_ctor_def
      ScopedTimer_dtor_def StageTimer_ctor_def StageTimer_done_def StageTimer_dtor_def bytes_def)

theorem disabled_build_does_nothing_witness:
  "\<not> enabled build_off \<and>
   ms_since build_off 5 world0 = (0, world0) \<and>
   IOScope_finish build_off (fst (IOScope_ctor build_off (Some 0) ''net'' world0)) world0 =
     (\<lparr>begin_v = 0, end_v = 0\<rparr>,
      \<lparr>io_counter = Some 0, io_label = ''net'', io_begin = 0, io_finished = True,
       io_last = \<lparr>begin_v = 0, end_v = 0\<rparr>\<rparr>, world0) \<and>
   ScopedTimer_life build_off (Some ''load'') 1500000 world0 = Inr (world0\<lparr>now_tp := 1500000\<rparr>) \<and>
   StageTimer_life build_off (Some ''stage'') ''pre'' [7, 9] world0 = Inr (world0\<lparr>now_tp := 9\<rparr>)"
  using disabled_build_does_nothing
    [where b = build_off and ?t0.0 = 5 and w = world0 and c = "Some 0" and l = "''net''"
       and s = "fst (IOScope_ctor build_off (Some 0) ''net'' world0)"]
    disabled_build_does_nothing
    [where b = build_off and w = world0 and lbl = "Some ''load''"]
    disabled_build_does_nothing
    [where b = build_off and w = "world0\<lparr>now_tp := 1500000\<rparr>"
       and st = "\<lparr>st_label = Some ''load'', st_t0 = 0\<rparr>"]
    disabled_build_does_nothing
    [where b = build_off and w = world0 and n = "Some ''stage''" and pref = "''pre''"]
    disabled_build_does_nothing
    [where b = build_off and w = "world0\<lparr>now_tp := 7\<rparr>"
       and sg = "\<lparr>sg_prefix = ''pre'', sg_name = Some ''stage'', sg_t0 = 0\<rparr>"]
    disabled_build_does_nothing
    [where b = build_off and w = "world0\<lparr>now_tp := 9\<rparr>"
       and sg = "\<lparr>sg_prefix = ''pre'', sg_name = Some ''stage'', sg_t0 = 0\<rparr>"]
  by (simp add: build_off_def build_on_def ScopedTimer_life_def StageTimer_life_def
      IOScope_default_def)

section \<open>Claims about the timers\<close>

text \<open>
  C6. In an enabled build \<open>done()\<close> can be called any number of times: every call reads
  the clock once and inserts one TOTAL line whose time is measured from the start
  instant the constructor recorded, whatever was printed before; the timer itself is
  not changed. Destroying the timer does nothing. Over a lifetime with \<open>done()\<close> called
  at the instants \<open>ts\<close> the output is the header followed by one TOTAL line per call, each
  with its own time, so with no call there is no TOTAL line.
\<close>

theorem stage_done_remeasures_each_call:
  assumes "enabled b"
  shows "console Cout (emitted w (StageTimer_done b s w)) =
           ''  [time] '' @ ljust (fill_char w Cout) 28 ''TOTAL'' @
           show_double b (ms_of_ticks b (now_tp w - sg_t0 s)) @ '' ms\<newline>'' \<and>
         clock_reads (emitted w (StageTimer_done b s w)) = 1 \<and>
         StageTimer_dtor s w = w \<and>
         (case StageTimer_ctor b n pref w of Inl e \<Rightarrow> False | Inr (s0, w1) \<Rightarrow> sg_t0 s0 = now_tp w) \<and>
         (case StageTimer_life b n pref ts w of
            Inl e \<Rightarrow> False
          | Inr w' \<Rightarrow>
              console Cout (emitted w w') =
                ''\<newline>'' @ pref @ (if pref = [] then [] else '' '') @
                (case n of None \<Rightarrow> [] | Some l \<Rightarrow> l) @ ''\<newline>'' @
                concat (map (\<lambda>t. ''  [time] '' @ ljust (fill_char w Cout) 28 ''TOTAL'' @
                               show_double b (ms_of_ticks b (t - now_tp w)) @ '' ms\<newline>'') ts) \<and>
              clock_reads (emitted w w') = Suc (length ts))"
proof -
  have 1: "console Cout (emitted w (StageTimer_done b s w)) =
           ''  [time] '' @ ljust (fill_char w Cout) 28 ''TOTAL'' @
           show_double b (ms_of_ticks b (now_tp w - sg_t0 s)) @ '' ms\<newline>''"
    by (simp add: StageTimer_done_enabled [OF assms] console_time_line)
  have 2: "clock_reads (emitted w (StageTimer_done b s w)) = 1"
    by (simp add: StageTimer_done_enabled [OF assms] time_line_def clock_reads_def)
  have 3: "StageTimer_dtor s w = w"
    by (simp add: StageTimer_dtor_def)
  have 4: "case StageTimer_ctor b n pref w of Inl e \<Rightarrow> False | Inr (s0, w1) \<Rightarrow> sg_t0 s0 = now_tp w"
    by (simp add: StageTimer_ctor_enabled [OF assms])
  have 5: "case StageTimer_life b n pref ts w of
            Inl e \<Rightarrow> False
          | Inr w' \<Rightarrow>
              console Cout (emitted w w') =
                ''\<newline>'' @ pref @ (if pref = [] then [] else '' '') @
                (case n of None \<Rightarrow> [] | Some l \<Rightarrow> l) @ ''\<newline>'' @
                concat (map (\<lambda>t. ''  [time] '' @ ljust (fill_char w Cout) 28 ''TOTAL'' @
                               show_double b (ms_of_ticks b (t - now_tp w)) @ '' ms\<newline>'') ts) \<and>
              clock_reads (emitted w w') = Suc (length ts)"
    by (simp add: StageTimer_life_enabled [OF assms] console_append console_concat_time_lines
        clock_reads_append clock_reads_concat_time_lines)
      (simp add: stage_header_def clock_reads_def)
  from 1 2 3 4 5 show ?thesis by blast
qed

theorem stage_done_remeasures_each_call_witness:
  "enabled build_on \<and>
   (case StageTimer_life build_on (Some ''stage'') ''pre'' [1500000, 3000000] world0 of
      Inl e \<Rightarrow> [] | Inr w' \<Rightarrow> console Cout (events w')) =
     ''\<newline>pre stage\<newline>'' @
     ''  [time] TOTAL                       1.5 ms\<newline>'' @
     ''  [time] TOTAL                       3 ms\<newline>'' \<and>
   (case StageTimer_life build_on (Some ''stage'') ''pre'' [] world0 of
      Inl e \<Rightarrow> [] | Inr w' \<Rightarrow> console Cout (events w')) = ''\<newline>pre stage\<newline>''"
  using stage_done_remeasures_each_call
    [where b = build_on and w = world0 and n = "Some ''stage''" and pref = "''pre''"
       and ts = "[1500000, 3000000]" and s = "\<lparr>sg_prefix = [], sg_name = None, sg_t0 = 0\<rparr>"]
    stage_done_remeasures_each_call
    [where b = build_on and w = world0 and n = "Some ''stage''" and pref = "''pre''"
       and ts = "[]" and s = "\<lparr>sg_prefix = [], sg_name = None, sg_t0 = 0\<rparr>"]
  by (simp add: build_on_def world0_def emitted_def ljust_def eval_nat_numeral split: sum.splits)








text \<open>
  C10. In either build, a Scoped Timer with a null label and a Stage Timer with a null
  name never hand the null pointer to the stream: destruction, respectively
  construction, succeeds, and in an enabled build the line is the one for the empty
  label or name: 28 fill characters (spaces by default) where the label would be, and a
  header that ends right after the prefix and its space. No label or name whatever makes either operation fail.
\<close>

theorem null_label_is_printed_as_empty:
  "(case ScopedTimer_life b None t_end w of
      Inl e \<Rightarrow> False
    | Inr w' \<Rightarrow>
        console Cout (emitted w w') =
          (if enabled b then
             ''  [time] '' @ replicate 28 (fill_char w Cout) @
             show_double b (ms_of_ticks b (t_end - now_tp w)) @ '' ms\<newline>''
           else [])) \<and>
   (case StageTimer_ctor b None pref w of
      Inl e \<Rightarrow> False
    | Inr (s, w') \<Rightarrow>
        sg_name s = None \<and>
        console Cout (emitted w w') =
          (if enabled b then ''\<newline>'' @ pref @ (if pref = [] then [] else '' '') @ ''\<newline>''
           else [])) \<and>
   ScopedTimer_dtor b st w \<noteq> Inl NullCString \<and>
   StageTimer_ctor b n pref w \<noteq> Inl NullCString"
proof (cases "enabled b")
  case True
  then show ?thesis
    by (simp add: ScopedTimer_life_enabled ScopedTimer_dtor_enabled StageTimer_ctor_enabled
        time_line_def stage_header_def ljust_def emitted_def)
next
  case False
  then show ?thesis
    by (simp add: ScopedTimer_life_disabled ScopedTimer_dtor_def StageTimer_ctor_def)
qed

theorem null_label_is_printed_as_empty_witness:
  "(case ScopedTimer_life build_on None 1500000 world0 of
      Inl e \<Rightarrow> [] | Inr w' \<Rightarrow> console Cout (events w')) =
     ''  [time]                             1.5 ms\<newline>'' \<and>
   (case StageTimer_ctor build_on None ''pre'' world0 of
      Inl e \<Rightarrow> [] | Inr (s, w') \<Rightarrow> console Cout (events w')) = ''\<newline>pre \<newline>''"
  using null_label_is_printed_as_empty
    [where b = build_on and w = world0 and t_end = 1500000 and pref = "''pre''" and n = None
       and st = "\<lparr>st_label = None, st_t0 = 0\<rparr>"]
  by (simp add: build_on_def world0_def emitted_def eval_nat_numeral split: sum.splits prod.splits)


section \<open>The claim about the console\<close>




end
